theory Spec2Isabelle
  imports Main
begin

section \<open>Data model\<close>

text \<open>
  The backend keeps users and posts in a document store. An identifier is an ObjectId;
  the handlers only ever compare its text form (\<^verbatim>\<open>post.user.toString() !== req.user.id\<close>),
  so an identifier is modelled by that text. A character of a \<open>string\<close> stands for one
  character as the validation layer counts them.
\<close>

type_synonym oid = string

text \<open>
  Modelled from the spec: the schemas \<^verbatim>\<open>models/Post\<close> and \<^verbatim>\<open>models/User\<close> are required by the
  route files but are not among the sources. The fields are those the handlers read and
  write, and those section 3 of the specification lists: a like is a user reference
  only; a comment has an identifier, an author, the author's name and avatar, a text and
  a timestamp.
\<close>

record like =
  like_user :: oid

record comment =
  comment_id :: oid
  comment_user :: oid
  comment_text :: string
  comment_name :: string
  comment_avatar :: string
  comment_date :: nat

record post =
  post_id :: oid
  post_user :: oid
  post_text :: string
  post_name :: string
  post_avatar :: string
  likes :: "like list"
  comments :: "comment list"
  post_date :: nat

record user =
  user_id :: oid
  user_name :: string
  user_email :: string
  user_password :: string
  user_avatar :: string

text \<open>What \<^verbatim>\<open>User.findById(...).select('-password')\<close> loads: the user without the password.\<close>

record user_view =
  view_id :: oid
  view_name :: string
  view_email :: string
  view_avatar :: string

record db =
  posts :: "post list"
  users :: "user list"

subsection \<open>Libraries the handlers call\<close>

text \<open>
  The libraries are not part of the repository; what the handlers need of them is a
  parameter of the model.
  \<^item> \<open>cast_oid\<close>: the store's cast of a route parameter to an ObjectId, \<open>None\<close> when the
    text is not an identifier (the store then throws an error whose \<^verbatim>\<open>kind\<close> is
    \<^verbatim>\<open>'ObjectId'\<close>);
  \<^item> \<open>isEmail\<close>: the validation layer's email check;
  \<^item> \<open>gravatar_url\<close>, \<open>bcrypt_hash\<close> (password, then salt) and \<open>jwt_sign\<close>
    (\<open>None\<close> when signing calls back with an error).
\<close>

record env =
  cast_oid :: "string \<Rightarrow> oid option"
  isEmail :: "string \<Rightarrow> bool"
  gravatar_url :: "string \<Rightarrow> string"
  bcrypt_hash :: "string \<Rightarrow> string \<Rightarrow> string"
  jwt_sign :: "oid \<Rightarrow> string option"

text \<open>
  What a single request draws from outside: the identifier a new document gets, the
  clock for its default date, and the salt \<^verbatim>\<open>bcrypt.genSalt(10)\<close> returns.
\<close>

record fresh =
  fresh_id :: oid
  fresh_now :: nat
  fresh_salt :: string

subsection \<open>Requests, responses, errors\<close>

text \<open>
  \<open>req_user_id\<close> is \<^verbatim>\<open>req.user.id\<close>, which the authentication middleware took from the
  token: the text form of the identifier of the user the token was issued to. A body
  field that is absent is the empty string, which is what the validation layer checks
  in its place.
\<close>

record request =
  req_user_id :: oid
  param_post_id :: string
  param_comment_id :: string
  body_text :: string

record reg_request =
  body_name :: string
  body_email :: string
  body_password :: string

datatype exn = CastError | TypeError

datatype logentry = LogMessage exn | LogObject exn | LogNumber nat

datatype body =
    Msg string
  | Errors "string list"
  | Text string
  | PostBody post
  | PostList "post list"
  | Likes "like list"
  | Comments "comment list"
  | Token string

type_synonym resp = "nat \<times> body"

text \<open>
  The outcome of a handler: the store afterwards, the response sent (\<open>None\<close> when the
  handler ends without sending one) and what it wrote to the console.
\<close>

record outcome =
  store :: db
  response :: "resp option"
  console :: "logentry list"

section \<open>Array operations of the language\<close>

text \<open>\<^verbatim>\<open>indexOf\<close>: the first index of the value, or -1.\<close>

fun indexOf :: "'a list \<Rightarrow> 'a \<Rightarrow> int" where
  "indexOf [] v = -1"
| "indexOf (x # xs) v =
     (if x = v then 0 else (let i = indexOf xs v in if i < 0 then -1 else i + 1))"

text \<open>
  \<^verbatim>\<open>splice(start, 1)\<close>: a negative start counts from the end, a start beyond the end is
  the end; one element is removed from there, if there is one.
\<close>

definition splice1 :: "'a list \<Rightarrow> int \<Rightarrow> 'a list" where
  "splice1 xs start =
     (let n = int (length xs);
          s = (if start < 0 then max (n + start) 0 else min start n)
      in take (nat s) xs @ drop (nat s + 1) xs)"

definition unshift :: "'a list \<Rightarrow> 'a \<Rightarrow> 'a list" where
  "unshift xs x = x # xs"

section \<open>The store\<close>

definition Post_findById :: "env \<Rightarrow> db \<Rightarrow> string \<Rightarrow> exn + post option" where
  "Post_findById e d i =
     (case cast_oid e i of
        None \<Rightarrow> Inl CastError
      | Some k \<Rightarrow> Inr (find (\<lambda>p. post_id p = k) (posts d)))"

text \<open>\<^verbatim>\<open>post.save()\<close> of a loaded post writes it back under its identifier.\<close>

definition Post_save :: "db \<Rightarrow> post \<Rightarrow> db" where
  "Post_save d p = d\<lparr>posts := map (\<lambda>q. if post_id q = post_id p then p else q) (posts d)\<rparr>"

text \<open>\<^verbatim>\<open>newPost.save()\<close> of a new post adds it.\<close>

definition Post_insert :: "db \<Rightarrow> post \<Rightarrow> db" where
  "Post_insert d p = d\<lparr>posts := posts d @ [p]\<rparr>"

definition Post_remove :: "db \<Rightarrow> post \<Rightarrow> db" where
  "Post_remove d p = d\<lparr>posts := filter (\<lambda>q. post_id q \<noteq> post_id p) (posts d)\<rparr>"

text \<open>\<^verbatim>\<open>Post.find().sort({ date: -1 })\<close>: newest first.\<close>

definition Post_find_sorted :: "db \<Rightarrow> post list" where
  "Post_find_sorted d = sort_key (\<lambda>p. - int (post_date p)) (posts d)"

definition select_minus_password :: "user \<Rightarrow> user_view" where
  "select_minus_password u =
     \<lparr>view_id = user_id u, view_name = user_name u, view_email = user_email u,
      view_avatar = user_avatar u\<rparr>"

definition User_findById_select :: "db \<Rightarrow> oid \<Rightarrow> user_view option" where
  "User_findById_select d i =
     map_option select_minus_password (find (\<lambda>u. user_id u = i) (users d))"

definition User_findOne_email :: "db \<Rightarrow> string \<Rightarrow> user option" where
  "User_findOne_email d m = find (\<lambda>u. user_email u = m) (users d)"

definition User_insert :: "db \<Rightarrow> user \<Rightarrow> db" where
  "User_insert d u = d\<lparr>users := users d @ [u]\<rparr>"

section \<open>Handlers of the posts routes\<close>

text \<open>
  Each handler is a \<^verbatim>\<open>try\<close> body and a \<^verbatim>\<open>catch\<close> block. The body either throws
  (\<open>Inl\<close>) or ends having sent a response, with the store as it left it (\<open>Inr\<close>). No
  body writes to the store before a statement that can throw, so a handler that caught
  an error leaves the store as it found it.
\<close>

type_synonym tried = "exn + (db \<times> resp)"

definition sent :: "db \<Rightarrow> resp \<Rightarrow> outcome" where
  "sent d r = \<lparr>store = d, response = Some r, console = []\<rparr>"

text \<open>\<^verbatim>\<open>catch (err) { console.error(err.message); res.status(500).send('Server Error'); }\<close>\<close>

definition catch_500 :: "db \<Rightarrow> tried \<Rightarrow> outcome" where
  "catch_500 d t =
     (case t of
        Inl err \<Rightarrow> \<lparr>store = d, response = Some (500, Text ''Server Error''),
                    console = [LogMessage err]\<rparr>
      | Inr (d', r) \<Rightarrow> sent d' r)"

text \<open>The same with \<^verbatim>\<open>console.error({ msg: err.message })\<close> and no other statement.\<close>

definition catch_obj_500 :: "db \<Rightarrow> tried \<Rightarrow> outcome" where
  "catch_obj_500 d t =
     (case t of
        Inl err \<Rightarrow> \<lparr>store = d, response = Some (500, Text ''Server Error''),
                    console = [LogObject err]\<rparr>
      | Inr (d', r) \<Rightarrow> sent d' r)"

text \<open>
  \<^verbatim>\<open>catch (err) { console.error({ msg: err.message });
    if (err.kind === 'ObjectId') { return res.status(404).json({ msg: 'Invalid post id' }); }
    res.status(500).send('Server Error'); }\<close>
\<close>

definition catch_404_500 :: "db \<Rightarrow> tried \<Rightarrow> outcome" where
  "catch_404_500 d t =
     (case t of
        Inl err \<Rightarrow>
          \<lparr>store = d,
           response = Some (if err = CastError then (404, Msg ''Invalid post id'')
                            else (500, Text ''Server Error'')),
           console = [LogObject err]\<rparr>
      | Inr (d', r) \<Rightarrow> sent d' r)"

text \<open>\<^verbatim>\<open>catch (err) {}\<close>: nothing is logged and nothing is sent.\<close>

definition catch_nothing :: "db \<Rightarrow> tried \<Rightarrow> outcome" where
  "catch_nothing d t =
     (case t of
        Inl err \<Rightarrow> \<lparr>store = d, response = None, console = []\<rparr>
      | Inr (d', r) \<Rightarrow> sent d' r)"

subsection \<open>PUT api/posts/like/:post_id\<close>

definition like_body :: "env \<Rightarrow> db \<Rightarrow> request \<Rightarrow> tried" where
  "like_body e d req =
     (case Post_findById e d (param_post_id req) of
        Inl err \<Rightarrow> Inl err
      | Inr None \<Rightarrow> Inl TypeError
      | Inr (Some p) \<Rightarrow>
          if length (filter (\<lambda>l. like_user l = req_user_id req) (likes p)) > 0
          then Inr (d, (400, Msg ''Post already liked''))
          else
            (let p' = p\<lparr>likes := unshift (likes p) \<lparr>like_user = req_user_id req\<rparr>\<rparr>
             in Inr (Post_save d p', (200, Likes (likes p')))))"

definition like_handler :: "env \<Rightarrow> db \<Rightarrow> request \<Rightarrow> outcome" where
  "like_handler e d req = catch_nothing d (like_body e d req)"

subsection \<open>PUT api/posts/unlike/:post_id\<close>

definition unlike_body :: "env \<Rightarrow> db \<Rightarrow> request \<Rightarrow> tried" where
  "unlike_body e d req =
     (case Post_findById e d (param_post_id req) of
        Inl err \<Rightarrow> Inl err
      | Inr None \<Rightarrow> Inl TypeError
      | Inr (Some p) \<Rightarrow>
          if length (filter (\<lambda>l. like_user l = req_user_id req) (likes p)) = 0
          then Inr (d, (400, Msg ''Post has not yet been liked''))
          else
            (let removeIndex = indexOf (map like_user (likes p)) (req_user_id req);
                 p' = p\<lparr>likes := splice1 (likes p) removeIndex\<rparr>
             in Inr (Post_save d p', (200, Likes (likes p')))))"

definition unlike_handler :: "env \<Rightarrow> db \<Rightarrow> request \<Rightarrow> outcome" where
  "unlike_handler e d req = catch_nothing d (unlike_body e d req)"

subsection \<open>POST api/posts\<close>

text \<open>\<^verbatim>\<open>check('text', 'Text is required').not().isEmpty()\<close>\<close>

definition validate_text :: "request \<Rightarrow> string list" where
  "validate_text req = (if body_text req = [] then [''Text is required''] else [])"

definition create_body :: "fresh \<Rightarrow> db \<Rightarrow> request \<Rightarrow> tried" where
  "create_body f d req =
     (case User_findById_select d (req_user_id req) of
        None \<Rightarrow> Inl TypeError
      | Some u \<Rightarrow>
          (let newPost =
                 \<lparr>post_id = fresh_id f, post_user = req_user_id req,
                  post_text = body_text req, post_name = view_name u,
                  post_avatar = view_avatar u, likes = [], comments = [],
                  post_date = fresh_now f\<rparr>
           in Inr (Post_insert d newPost, (200, PostBody newPost))))"

definition create_handler :: "fresh \<Rightarrow> db \<Rightarrow> request \<Rightarrow> outcome" where
  "create_handler f d req =
     (let errors = validate_text req
      in if errors \<noteq> [] then sent d (400, Errors errors)
         else catch_500 d (create_body f d req))"

subsection \<open>GET api/posts and GET api/posts/:post_id\<close>

definition list_handler :: "db \<Rightarrow> outcome" where
  "list_handler d = catch_obj_500 d (Inr (d, (200, PostList (Post_find_sorted d))))"

definition get_body :: "env \<Rightarrow> db \<Rightarrow> request \<Rightarrow> tried" where
  "get_body e d req =
     (case Post_findById e d (param_post_id req) of
        Inl err \<Rightarrow> Inl err
      | Inr None \<Rightarrow> Inr (d, (404, Msg ''Post not found''))
      | Inr (Some p) \<Rightarrow> Inr (d, (200, PostBody p)))"

definition get_handler :: "env \<Rightarrow> db \<Rightarrow> request \<Rightarrow> outcome" where
  "get_handler e d req = catch_404_500 d (get_body e d req)"

subsection \<open>DELETE api/posts/:post_id\<close>

text \<open>
  \<^verbatim>\<open>return res.status(401).res({ msg: 'User not authorized' });\<close> The response object has
  the methods \<^verbatim>\<open>json\<close> and \<^verbatim>\<open>send\<close> and none named \<^verbatim>\<open>res\<close>: once the status is set, the
  call of the missing method throws a TypeError, nothing has been sent, and the
  \<^verbatim>\<open>catch\<close> block sets the status anew.
\<close>

definition status_res :: "nat \<Rightarrow> body \<Rightarrow> tried" where
  "status_res code b = Inl TypeError"

text \<open>
  The handler passes \<^verbatim>\<open>{ _id: req.params.post_id }\<close> to \<^verbatim>\<open>findById\<close>; the store's cast
  takes the identifier out of such an object, so the lookup is the one of the other
  handlers.
\<close>

definition delete_body :: "env \<Rightarrow> db \<Rightarrow> request \<Rightarrow> tried" where
  "delete_body e d req =
     (case Post_findById e d (param_post_id req) of
        Inl err \<Rightarrow> Inl err
      | Inr None \<Rightarrow> Inr (d, (404, Msg ''Post not found''))
      | Inr (Some p) \<Rightarrow>
          if post_user p \<noteq> req_user_id req
          then status_res 401 (Msg ''User not authorized'')
          else Inr (Post_remove d p, (200, Msg ''Post removed'')))"

definition delete_handler :: "env \<Rightarrow> db \<Rightarrow> request \<Rightarrow> outcome" where
  "delete_handler e d req = catch_404_500 d (delete_body e d req)"

subsection \<open>POST api/posts/comment/:post_id\<close>

text \<open>
  The comment is built with \<^verbatim>\<open>new Post({...})\<close> and put at the front of the comment
  list, where it becomes a comment with the identifier and the date of that document.
  The user and the post are loaded first (the cast of the post identifier can throw);
  \<^verbatim>\<open>user.name\<close> and \<^verbatim>\<open>post.comments\<close> are read afterwards, in this order.
\<close>

definition comment_body :: "env \<Rightarrow> fresh \<Rightarrow> db \<Rightarrow> request \<Rightarrow> tried" where
  "comment_body e f d req =
     (let user = User_findById_select d (req_user_id req)
      in case Post_findById e d (param_post_id req) of
           Inl err \<Rightarrow> Inl err
         | Inr post \<Rightarrow>
             (case user of
                None \<Rightarrow> Inl TypeError
              | Some u \<Rightarrow>
                  (let newComment =
                         \<lparr>comment_id = fresh_id f, comment_user = req_user_id req,
                          comment_text = body_text req, comment_name = view_name u,
                          comment_avatar = view_avatar u, comment_date = fresh_now f\<rparr>
                   in case post of
                        None \<Rightarrow> Inl TypeError
                      | Some p \<Rightarrow>
                          (let p' = p\<lparr>comments := unshift (comments p) newComment\<rparr>
                           in Inr (Post_save d p', (200, Comments (comments p')))))))"

definition comment_handler :: "env \<Rightarrow> fresh \<Rightarrow> db \<Rightarrow> request \<Rightarrow> outcome" where
  "comment_handler e f d req =
     (let errors = validate_text req
      in if errors \<noteq> [] then sent d (400, Errors errors)
         else catch_500 d (comment_body e f d req))"

subsection \<open>DELETE api/posts/comment/:post_id/:comment_id\<close>

definition deleteComment_body :: "env \<Rightarrow> db \<Rightarrow> request \<Rightarrow> tried" where
  "deleteComment_body e d req =
     (case Post_findById e d (param_post_id req) of
        Inl err \<Rightarrow> Inl err
      | Inr None \<Rightarrow> Inl TypeError
      | Inr (Some p) \<Rightarrow>
          (case find (\<lambda>c. comment_id c = param_comment_id req) (comments p) of
             None \<Rightarrow> Inr (d, (404, Msg ''Comment does not exist''))
           | Some c \<Rightarrow>
               if comment_user c \<noteq> req_user_id req
               then Inr (d, (401, Msg ''User not authorized''))
               else
                 (let removeIndex = indexOf (map comment_user (comments p)) (req_user_id req);
                      p' = p\<lparr>comments := splice1 (comments p) removeIndex\<rparr>
                  in Inr (Post_save d p', (200, Comments (comments p'))))))"

definition deleteComment_handler :: "env \<Rightarrow> db \<Rightarrow> request \<Rightarrow> outcome" where
  "deleteComment_handler e d req = catch_500 d (deleteComment_body e d req)"

section \<open>Handler of the users route: POST api/users\<close>

text \<open>
  The three checks, in the order of the route: \<^verbatim>\<open>name\<close> not empty, \<^verbatim>\<open>email\<close> an email,
  \<^verbatim>\<open>password\<close> of length 6 at least. \<^verbatim>\<open>errors.array()\<close> is modelled by the messages.
\<close>

definition validate_registration :: "env \<Rightarrow> reg_request \<Rightarrow> string list" where
  "validate_registration e req =
     (if body_name req = [] then [''Name is required''] else []) @
     (if \<not> isEmail e (body_email req) then [''Please include a valid email''] else []) @
     (if length (body_password req) < 6
      then [''Please enter a password with 6 or more characters''] else [])"

text \<open>
  The \<^verbatim>\<open>try\<close> body. \<^verbatim>\<open>jwt.sign\<close> calls back later: with a token, which is the
  response; or with an error, which the callback throws where no \<^verbatim>\<open>catch\<close> block can see
  it, and no response is sent. The user is saved by then.
\<close>

definition register_body :: "env \<Rightarrow> fresh \<Rightarrow> db \<Rightarrow> reg_request \<Rightarrow> exn + outcome" where
  "register_body e f d req =
     (case User_findOne_email d (body_email req) of
        Some existing \<Rightarrow> Inr (sent d (400, Errors [''User already exists'']))
      | None \<Rightarrow>
          (let avatar = gravatar_url e (body_email req);
               user = \<lparr>user_id = fresh_id f, user_name = body_name req,
                       user_email = body_email req, user_password = body_password req,
                       user_avatar = avatar\<rparr>;
               salt = fresh_salt f;
               user = user\<lparr>user_password := bcrypt_hash e (body_password req) salt\<rparr>;
               d' = User_insert d user
           in case jwt_sign e (user_id user) of
                None \<Rightarrow> Inr \<lparr>store = d', response = None, console = []\<rparr>
              | Some token \<Rightarrow> Inr (sent d' (200, Token token))))"

text \<open>
  \<^verbatim>\<open>catch (error) { console.error(500).send('Server error'); }\<close> writes 500 to the console;
  \<^verbatim>\<open>console.error\<close> returns nothing, so the call of \<^verbatim>\<open>send\<close> on it throws and no
  response is sent.
\<close>

definition register_handler :: "env \<Rightarrow> fresh \<Rightarrow> db \<Rightarrow> reg_request \<Rightarrow> outcome" where
  "register_handler e f d req =
     (let errors = validate_registration e req
      in if errors \<noteq> [] then sent d (400, Errors errors)
         else (case register_body e f d req of
                 Inl err \<Rightarrow> \<lparr>store = d, response = None, console = [LogNumber 500]\<rparr>
               | Inr out \<Rightarrow> out))"

section \<open>The server as a transition system\<close>

datatype call =
    Register reg_request
  | CreatePost request
  | ListPosts
  | GetPost request
  | DeletePost request
  | LikePost request
  | UnlikePost request
  | AddComment request
  | DeleteComment request

fun serve :: "env \<Rightarrow> fresh \<Rightarrow> db \<Rightarrow> call \<Rightarrow> outcome" where
  "serve e f d (Register r) = register_handler e f d r"
| "serve e f d (CreatePost r) = create_handler f d r"
| "serve e f d ListPosts = list_handler d"
| "serve e f d (GetPost r) = get_handler e d r"
| "serve e f d (DeletePost r) = delete_handler e d r"
| "serve e f d (LikePost r) = like_handler e d r"
| "serve e f d (UnlikePost r) = unlike_handler e d r"
| "serve e f d (AddComment r) = comment_handler e f d r"
| "serve e f d (DeleteComment r) = deleteComment_handler e d r"

definition init_db :: db where
  "init_db = \<lparr>posts = [], users = []\<rparr>"

text \<open>The stores the server can be in: the empty one, and what a request makes of one.\<close>

inductive reachable :: "env \<Rightarrow> db \<Rightarrow> bool" for e :: env where
  start: "reachable e init_db"
| step: "reachable e d \<Longrightarrow> reachable e (store (serve e f d c))"

text \<open>No user appears twice in the like list of a post; of all posts of a store.\<close>

definition likes_unique :: "post \<Rightarrow> bool" where
  "likes_unique p = distinct (map like_user (likes p))"

definition all_likes_unique :: "db \<Rightarrow> bool" where
  "all_likes_unique d = list_all likes_unique (posts d)"

text \<open>The stored post with an identifier.\<close>

definition stored_post :: "db \<Rightarrow> oid \<Rightarrow> post option" where
  "stored_post d k = find (\<lambda>p. post_id p = k) (posts d)"

text \<open>A store with every stored password overwritten.\<close>

definition scrub :: "db \<Rightarrow> db" where
  "scrub d = d\<lparr>users := map (\<lambda>u. u\<lparr>user_password := []\<rparr>) (users d)\<rparr>"

subsection \<open>An instance of the libraries, for concrete runs\<close>

definition hex24 :: "string \<Rightarrow> oid option" where
  "hex24 s = (if length s = 24 \<and> list_all (\<lambda>c. c \<in> set ''0123456789abcdef'') s
              then Some s else None)"

definition sample_env :: env where
  "sample_env =
     \<lparr>cast_oid = hex24,
      isEmail = (\<lambda>s. CHR ''@'' \<in> set s),
      gravatar_url = (\<lambda>m. ''//www.gravatar.com/avatar/'' @ m),
      bcrypt_hash = (\<lambda>pw salt. salt @ rev pw),
      jwt_sign = (\<lambda>i. Some (''jwt.'' @ i))\<rparr>"

subsection \<open>A small store, for concrete runs\<close>

definition alice :: oid where "alice = ''5d7a514b5d2c12c7449be041''"
definition bob :: oid where "bob = ''5d7a514b5d2c12c7449be042''"
definition post1 :: oid where "post1 = ''5d7a514b5d2c12c7449be0a1''"
definition no_post :: oid where "no_post = ''5d7a514b5d2c12c7449be0ff''"
definition comment1 :: oid where "comment1 = ''5d7a514b5d2c12c7449be0c1''"
definition comment2 :: oid where "comment2 = ''5d7a514b5d2c12c7449be0c2''"

definition alice_user :: user where
  "alice_user = \<lparr>user_id = alice, user_name = ''A'', user_email = ''a@x.com'',
                  user_password = ''salt11terces'', user_avatar = ''//www.gravatar.com/avatar/a@x.com''\<rparr>"

definition bob_user :: user where
  "bob_user = \<lparr>user_id = bob, user_name = ''B'', user_email = ''b@x.com'',
                user_password = ''salt2drowssap'', user_avatar = ''//www.gravatar.com/avatar/b@x.com''\<rparr>"

text \<open>A post of Alice's, with no like and no comment.\<close>

definition alice_post :: post where
  "alice_post = \<lparr>post_id = post1, post_user = alice, post_text = ''hi'', post_name = ''A'',
                  post_avatar = ''//www.gravatar.com/avatar/a@x.com'', likes = [], comments = [],
                  post_date = 10\<rparr>"

definition small_db :: db where
  "small_db = \<lparr>posts = [alice_post], users = [alice_user, bob_user]\<rparr>"

text \<open>Two comments of Bob's on that post; the later one is at the front.\<close>

definition bob_comment1 :: comment where
  "bob_comment1 = \<lparr>comment_id = comment1, comment_user = bob, comment_text = ''first'',
                    comment_name = ''B'', comment_avatar = ''//www.gravatar.com/avatar/b@x.com'',
                    comment_date = 11\<rparr>"

definition bob_comment2 :: comment where
  "bob_comment2 = \<lparr>comment_id = comment2, comment_user = bob, comment_text = ''second'',
                    comment_name = ''B'', comment_avatar = ''//www.gravatar.com/avatar/b@x.com'',
                    comment_date = 12\<rparr>"

definition commented_db :: db where
  "commented_db =
     \<lparr>posts = [alice_post\<lparr>comments := [bob_comment2, bob_comment1]\<rparr>],
      users = [alice_user, bob_user]\<rparr>"

text \<open>A request of a user on a post (and a comment), with an empty body.\<close>

definition request_of :: "oid \<Rightarrow> string \<Rightarrow> string \<Rightarrow> request" where
  "request_of u p c = \<lparr>req_user_id = u, param_post_id = p, param_comment_id = c, body_text = []\<rparr>"

text \<open>The post again, liked by Alice and then by Bob; the later like is at the front.\<close>

definition liked_db :: db where
  "liked_db =
     \<lparr>posts = [alice_post\<lparr>likes := [\<lparr>like_user = bob\<rparr>, \<lparr>like_user = alice\<rparr>]\<rparr>],
      users = [alice_user, bob_user]\<rparr>"

subsection \<open>A concrete run: Alice registers, posts and likes her post\<close>

definition alice_registration :: reg_request where
  "alice_registration =
     \<lparr>body_name = ''A'', body_email = ''a@x.com'', body_password = ''secret1''\<rparr>"

definition user_fresh :: fresh where
  "user_fresh = \<lparr>fresh_id = alice, fresh_now = 9, fresh_salt = ''salt1''\<rparr>"

definition post_fresh :: fresh where
  "post_fresh = \<lparr>fresh_id = post1, fresh_now = 10, fresh_salt = []\<rparr>"

definition hi_request :: request where
  "hi_request = \<lparr>req_user_id = alice, param_post_id = [], param_comment_id = [],
                  body_text = ''hi''\<rparr>"

definition registered_db :: db where
  "registered_db = store (serve sample_env user_fresh init_db (Register alice_registration))"

definition posted_db :: db where
  "posted_db = store (serve sample_env post_fresh registered_db (CreatePost hi_request))"

definition self_liked_db :: db where
  "self_liked_db =
     store (serve sample_env post_fresh posted_db (LikePost (request_of alice post1 [])))"

section \<open>Facts about the store\<close>

lemma stored_post_id: "stored_post d k = Some p \<Longrightarrow> post_id p = k"
  by (auto simp: stored_post_def find_Some_iff)

lemma find_save:
  "post_id p' = k \<Longrightarrow>
   find (\<lambda>q. post_id q = k') (map (\<lambda>q. if post_id q = k then p' else q) ps) =
   (if k' = k then map_option (\<lambda>q. p') (find (\<lambda>q. post_id q = k) ps)
    else find (\<lambda>q. post_id q = k') ps)"
  by (induction ps) auto

lemma stored_post_save:
  "stored_post (Post_save d p') k' =
   (if k' = post_id p' then map_option (\<lambda>q. p') (stored_post d k') else stored_post d k')"
  by (simp add: stored_post_def Post_save_def find_save)

lemma users_save: "users (Post_save d p) = users d"
  by (simp add: Post_save_def)

lemma findById_stored:
  "cast_oid e i = Some k \<Longrightarrow> Post_findById e d i = Inr (stored_post d k)"
  by (simp add: Post_findById_def stored_post_def)

section \<open>Likes\<close>

lemma filter_user_empty:
  "(filter (\<lambda>l. like_user l = u) ls = []) = (u \<notin> like_user ` set ls)"
  by (induction ls) auto

lemma like_already:
  assumes "cast_oid e (param_post_id req) = Some k" and "stored_post d k = Some p"
    and "req_user_id req \<in> like_user ` set (likes p)"
  shows "like_handler e d req =
     \<lparr>store = d, response = Some (400, Msg ''Post already liked''), console = []\<rparr>"
  using assms
  by (simp add: like_handler_def like_body_def findById_stored filter_user_empty
      catch_nothing_def sent_def)

lemma like_new:
  assumes "cast_oid e (param_post_id req) = Some k" and "stored_post d k = Some p"
    and "req_user_id req \<notin> like_user ` set (likes p)"
  shows "like_handler e d req =
     \<lparr>store = Post_save d (p\<lparr>likes := \<lparr>like_user = req_user_id req\<rparr> # likes p\<rparr>),
      response = Some (200, Likes (\<lparr>like_user = req_user_id req\<rparr> # likes p)), console = []\<rparr>"
  using assms
  by (simp add: like_handler_def like_body_def findById_stored filter_user_empty
      catch_nothing_def sent_def unshift_def Let_def)

text \<open>
  C4. For a stored post and a user: if the user is in the like list of the post, the like
  handler answers 400 "Post already liked" and leaves the store as it is. Otherwise it
  answers with the like list that has a new like of the user at its front, and that list
  is stored; a second like of the same user then answers 400 and changes nothing, so the
  stored list is one longer than at the start: of length 1 for a post without likes.
\<close>

theorem like_prepends_once:
  assumes found: "cast_oid e (param_post_id req) = Some k" "stored_post d k = Some p"
  shows
    "(req_user_id req \<in> like_user ` set (likes p) \<longrightarrow>
        like_handler e d req =
          \<lparr>store = d, response = Some (400, Msg ''Post already liked''), console = []\<rparr>) \<and>
     (req_user_id req \<notin> like_user ` set (likes p) \<longrightarrow>
        (let l = \<lparr>like_user = req_user_id req\<rparr>;
             p' = p\<lparr>likes := l # likes p\<rparr>;
             d1 = store (like_handler e d req)
         in response (like_handler e d req) = Some (200, Likes (l # likes p)) \<and>
            d1 = Post_save d p' \<and>
            stored_post d1 k = Some p' \<and>
            like_handler e d1 req =
              \<lparr>store = d1, response = Some (400, Msg ''Post already liked''), console = []\<rparr> \<and>
            map_option (\<lambda>q. length (likes q)) (stored_post (store (like_handler e d1 req)) k) =
              Some (Suc (length (likes p)))))"
proof (intro conjI impI)
  assume "req_user_id req \<in> like_user ` set (likes p)"
  with found show "like_handler e d req =
      \<lparr>store = d, response = Some (400, Msg ''Post already liked''), console = []\<rparr>"
    by (rule like_already)
next
  assume new: "req_user_id req \<notin> like_user ` set (likes p)"
  define l where "l = \<lparr>like_user = req_user_id req\<rparr>"
  define p' where "p' = p\<lparr>likes := l # likes p\<rparr>"
  define d1 where "d1 = store (like_handler e d req)"
  have first: "like_handler e d req =
      \<lparr>store = Post_save d p', response = Some (200, Likes (l # likes p)), console = []\<rparr>"
    unfolding p'_def l_def using found new by (rule like_new)
  have d1: "d1 = Post_save d p'"
    by (simp add: d1_def first)
  have id: "post_id p' = k"
    using stored_post_id [OF found(2)] by (simp add: p'_def)
  have stored: "stored_post d1 k = Some p'"
    by (simp add: d1 stored_post_save id found(2))
  have "req_user_id req \<in> like_user ` set (likes p')"
    by (simp add: p'_def l_def)
  with found(1) stored have second: "like_handler e d1 req =
      \<lparr>store = d1, response = Some (400, Msg ''Post already liked''), console = []\<rparr>"
    by (rule like_already)
  have "map_option (\<lambda>q. length (likes q)) (stored_post (store (like_handler e d1 req)) k) =
      Some (Suc (length (likes p)))"
    by (simp add: second stored p'_def)
  with first d1 stored second
  show "let l = \<lparr>like_user = req_user_id req\<rparr>;
            p' = p\<lparr>likes := l # likes p\<rparr>;
            d1 = store (like_handler e d req)
        in response (like_handler e d req) = Some (200, Likes (l # likes p)) \<and>
           d1 = Post_save d p' \<and>
           stored_post d1 k = Some p' \<and>
           like_handler e d1 req =
             \<lparr>store = d1, response = Some (400, Msg ''Post already liked''), console = []\<rparr> \<and>
           map_option (\<lambda>q. length (likes q)) (stored_post (store (like_handler e d1 req)) k) =
             Some (Suc (length (likes p)))"
    unfolding Let_def l_def [symmetric] p'_def [symmetric] d1_def [symmetric] by simp
qed

text \<open>The definitions a concrete run unfolds.\<close>

lemmas sample_defs = sample_env_def hex24_def small_db_def alice_post_def alice_user_def
  bob_user_def alice_def bob_def post1_def no_post_def comment1_def comment2_def
  request_of_def commented_db_def bob_comment1_def bob_comment2_def liked_db_def stored_post_def

theorem like_prepends_once_witness:
  "cast_oid sample_env (param_post_id (request_of bob post1 [])) = Some post1 \<and>
   stored_post small_db post1 = Some alice_post \<and>
   likes alice_post = [] \<and>
   response (like_handler sample_env small_db (request_of bob post1 [])) =
     Some (200, Likes [\<lparr>like_user = bob\<rparr>]) \<and>
   response (like_handler sample_env
       (store (like_handler sample_env small_db (request_of bob post1 [])))
       (request_of bob post1 [])) = Some (400, Msg ''Post already liked'') \<and>
   map_option (\<lambda>q. length (likes q))
     (stored_post (store (like_handler sample_env
         (store (like_handler sample_env small_db (request_of bob post1 [])))
         (request_of bob post1 []))) post1) = Some 1"
proof -
  have c: "cast_oid sample_env (param_post_id (request_of bob post1 [])) = Some post1"
    by (simp add: sample_defs)
  have s: "stored_post small_db post1 = Some alice_post"
    by (simp add: sample_defs)
  have n: "likes alice_post = []"
    by (simp add: alice_post_def)
  have u: "req_user_id (request_of bob post1 []) = bob"
    by (simp add: request_of_def)
  have new: "req_user_id (request_of bob post1 []) \<notin> like_user ` set (likes alice_post)"
    by (simp add: n)
  note T = like_prepends_once [OF c s, unfolded Let_def, THEN conjunct2, THEN mp, OF new]
  from T [THEN conjunct1]
  have "response (like_handler sample_env small_db (request_of bob post1 [])) =
      Some (200, Likes [\<lparr>like_user = bob\<rparr>])"
    by (simp add: u n)
  moreover from T [THEN conjunct2, THEN conjunct2, THEN conjunct2, THEN conjunct1]
  have "response (like_handler sample_env
       (store (like_handler sample_env small_db (request_of bob post1 [])))
       (request_of bob post1 [])) = Some (400, Msg ''Post already liked'')"
    by simp
  moreover from T [THEN conjunct2, THEN conjunct2, THEN conjunct2, THEN conjunct2]
  have "map_option (\<lambda>q. length (likes q))
     (stored_post (store (like_handler sample_env
         (store (like_handler sample_env small_db (request_of bob post1 [])))
         (request_of bob post1 []))) post1) = Some 1"
    by (simp add: n)
  ultimately show ?thesis
    using c s n by blast
qed

section \<open>Index and splice\<close>

lemma indexOf_absent: "v \<notin> set xs \<Longrightarrow> indexOf xs v = -1"
  by (induction xs) (auto simp: Let_def)

lemma indexOf_present: "v \<in> set xs \<Longrightarrow> 0 \<le> indexOf xs v"
  by (induction xs) (auto simp: Let_def)

lemma indexOf_first:
  "v \<in> set xs \<Longrightarrow> nat (indexOf xs v) = length (takeWhile (\<lambda>x. x \<noteq> v) xs)"
proof (induction xs)
  case Nil
  then show ?case by simp
next
  case (Cons x xs)
  show ?case
  proof (cases "x = v")
    case True
    then show ?thesis by simp
  next
    case False
    with Cons.prems have in_tl: "v \<in> set xs" by simp
    from indexOf_present [OF in_tl] have "nat (indexOf xs v + 1) = Suc (nat (indexOf xs v))"
      by simp
    with False in_tl Cons.IH indexOf_present [OF in_tl] show ?thesis
      by (simp add: Let_def)
  qed
qed

lemma splice1_at:
  "0 \<le> i \<Longrightarrow> nat i \<le> length xs \<Longrightarrow> splice1 xs i = take (nat i) xs @ drop (Suc (nat i)) xs"
proof -
  assume "0 \<le> i" and "nat i \<le> length xs"
  then have "i \<le> int (length xs)" by linarith
  with \<open>0 \<le> i\<close> show ?thesis
    by (simp add: splice1_def Let_def min_def)
qed

text \<open>
  Splicing at the index of the first element with a key leaves the elements before it
  and the elements after it.
\<close>

lemma splice1_indexOf_map:
  assumes "v \<in> f ` set xs"
  shows "splice1 xs (indexOf (map f xs) v) =
         takeWhile (\<lambda>x. f x \<noteq> v) xs @ tl (dropWhile (\<lambda>x. f x \<noteq> v) xs)"
proof -
  let ?n = "length (takeWhile (\<lambda>x. f x \<noteq> v) xs)"
  from assms have v: "v \<in> set (map f xs)" by simp
  have "length (takeWhile (\<lambda>y. y \<noteq> v) (map f xs)) = ?n"
    by (induction xs) auto
  with indexOf_first [OF v] have n: "nat (indexOf (map f xs) v) = ?n"
    by (rule trans)
  have le: "?n \<le> length xs"
    by (rule length_takeWhile_le)
  have "splice1 xs (indexOf (map f xs) v) = take ?n xs @ drop (Suc ?n) xs"
    using splice1_at [OF indexOf_present [OF v]] n le by simp
  also have "take ?n xs = takeWhile (\<lambda>x. f x \<noteq> v) xs"
    by (rule takeWhile_eq_take [symmetric])
  also have "drop (Suc ?n) xs = tl (drop ?n xs)"
    by (simp add: drop_Suc tl_drop)
  also have "drop ?n xs = dropWhile (\<lambda>x. f x \<noteq> v) xs"
    by (rule dropWhile_eq_drop [symmetric])
  finally show ?thesis .
qed

lemma remove1_key:
  assumes "\<And>x. (f x = v) = (x = a)"
  shows "takeWhile (\<lambda>x. f x \<noteq> v) xs @ tl (dropWhile (\<lambda>x. f x \<noteq> v) xs) = remove1 a xs"
proof (induction xs)
  case Nil
  show ?case by simp
next
  case (Cons x xs)
  show ?case
  proof (cases "f x = v")
    case True
    with assms have "x = a" by simp
    with True show ?thesis by simp
  next
    case False
    with assms have "a \<noteq> x" by auto
    with False Cons.IH show ?thesis by simp
  qed
qed

lemma like_eq_iff: "(like_user l = u) = (l = \<lparr>like_user = u\<rparr>)"
  by (cases l) auto

lemma splice1_like:
  assumes "u \<in> like_user ` set ls"
  shows "splice1 ls (indexOf (map like_user ls) u) = remove1 \<lparr>like_user = u\<rparr> ls"
  unfolding splice1_indexOf_map [OF assms]
  by (rule remove1_key) (rule like_eq_iff)

lemma unlike_absent:
  assumes "cast_oid e (param_post_id req) = Some k" and "stored_post d k = Some p"
    and "req_user_id req \<notin> like_user ` set (likes p)"
  shows "unlike_handler e d req =
     \<lparr>store = d, response = Some (400, Msg ''Post has not yet been liked''), console = []\<rparr>"
  using assms
  by (simp add: unlike_handler_def unlike_body_def findById_stored filter_user_empty
      catch_nothing_def sent_def)

lemma unlike_present:
  assumes "cast_oid e (param_post_id req) = Some k" and "stored_post d k = Some p"
    and "req_user_id req \<in> like_user ` set (likes p)"
  shows "unlike_handler e d req =
     \<lparr>store = Post_save d (p\<lparr>likes := remove1 \<lparr>like_user = req_user_id req\<rparr> (likes p)\<rparr>),
      response = Some (200, Likes (remove1 \<lparr>like_user = req_user_id req\<rparr> (likes p))),
      console = []\<rparr>"
  using assms
  by (simp add: unlike_handler_def unlike_body_def findById_stored filter_user_empty
      catch_nothing_def sent_def Let_def splice1_like)

text \<open>
  C5. For a stored post and a user: if the user is not in the like list, the unlike
  handler answers 400 "Post has not yet been liked" and leaves the store as it is.
  Otherwise it answers with the like list without the first entry of the user, every
  other entry kept in its place, and that list is stored; it is one shorter, and when no
  user was in the list twice the user is in it no more.
\<close>

theorem unlike_removes_entry:
  assumes found: "cast_oid e (param_post_id req) = Some k" "stored_post d k = Some p"
  shows
    "(req_user_id req \<notin> like_user ` set (likes p) \<longrightarrow>
        unlike_handler e d req =
          \<lparr>store = d, response = Some (400, Msg ''Post has not yet been liked''),
           console = []\<rparr>) \<and>
     (req_user_id req \<in> like_user ` set (likes p) \<longrightarrow>
        (let ls = remove1 \<lparr>like_user = req_user_id req\<rparr> (likes p)
         in response (unlike_handler e d req) = Some (200, Likes ls) \<and>
            stored_post (store (unlike_handler e d req)) k = Some (p\<lparr>likes := ls\<rparr>) \<and>
            ls = takeWhile (\<lambda>l. like_user l \<noteq> req_user_id req) (likes p) @
                 tl (dropWhile (\<lambda>l. like_user l \<noteq> req_user_id req) (likes p)) \<and>
            Suc (length ls) = length (likes p) \<and>
            (likes_unique p \<longrightarrow> req_user_id req \<notin> like_user ` set ls)))"
proof (intro conjI impI)
  assume "req_user_id req \<notin> like_user ` set (likes p)"
  with found show "unlike_handler e d req =
      \<lparr>store = d, response = Some (400, Msg ''Post has not yet been liked''), console = []\<rparr>"
    by (rule unlike_absent)
next
  assume old: "req_user_id req \<in> like_user ` set (likes p)"
  define u where "u = req_user_id req"
  define ls where "ls = remove1 \<lparr>like_user = u\<rparr> (likes p)"
  have run: "unlike_handler e d req =
      \<lparr>store = Post_save d (p\<lparr>likes := ls\<rparr>), response = Some (200, Likes ls), console = []\<rparr>"
    unfolding ls_def u_def using found old by (rule unlike_present)
  have id: "post_id (p\<lparr>likes := ls\<rparr>) = k"
    using stored_post_id [OF found(2)] by simp
  have stored: "stored_post (store (unlike_handler e d req)) k = Some (p\<lparr>likes := ls\<rparr>)"
    by (simp add: run stored_post_save id found(2))
  from old obtain x where x: "x \<in> set (likes p)" "like_user x = u"
    by (auto simp: u_def)
  from x(2) have "x = \<lparr>like_user = u\<rparr>"
    by (simp only: like_eq_iff)
  with x(1) have mem: "\<lparr>like_user = u\<rparr> \<in> set (likes p)"
    by simp
  have shape: "ls = takeWhile (\<lambda>l. like_user l \<noteq> u) (likes p) @
      tl (dropWhile (\<lambda>l. like_user l \<noteq> u) (likes p))"
    using splice1_indexOf_map [OF old] splice1_like [OF old] by (simp add: ls_def u_def)
  have len: "Suc (length ls) = length (likes p)"
    using mem by (simp add: ls_def length_remove1) (cases "likes p"; simp)
  have gone: "u \<notin> like_user ` set ls" if "likes_unique p"
  proof -
    from that have "distinct (likes p)"
      by (simp add: likes_unique_def distinct_map)
    then have "\<lparr>like_user = u\<rparr> \<notin> set ls"
      by (simp add: ls_def)
    moreover have "\<lparr>like_user = u\<rparr> \<in> set ls" if "u \<in> like_user ` set ls"
    proof -
      from that obtain y where y: "y \<in> set ls" "like_user y = u"
        by auto
      from y(2) have "y = \<lparr>like_user = u\<rparr>"
        by (simp only: like_eq_iff)
      with y(1) show ?thesis
        by simp
    qed
    ultimately show ?thesis
      by blast
  qed
  from run stored shape len gone
  show "let ls = remove1 \<lparr>like_user = req_user_id req\<rparr> (likes p)
        in response (unlike_handler e d req) = Some (200, Likes ls) \<and>
           stored_post (store (unlike_handler e d req)) k = Some (p\<lparr>likes := ls\<rparr>) \<and>
           ls = takeWhile (\<lambda>l. like_user l \<noteq> req_user_id req) (likes p) @
                tl (dropWhile (\<lambda>l. like_user l \<noteq> req_user_id req) (likes p)) \<and>
           Suc (length ls) = length (likes p) \<and>
           (likes_unique p \<longrightarrow> req_user_id req \<notin> like_user ` set ls)"
    unfolding Let_def u_def [symmetric] ls_def [symmetric] by simp
qed

theorem unlike_removes_entry_witness:
  "cast_oid sample_env (param_post_id (request_of alice post1 [])) = Some post1 \<and>
   stored_post liked_db post1 =
     Some (alice_post\<lparr>likes := [\<lparr>like_user = bob\<rparr>, \<lparr>like_user = alice\<rparr>]\<rparr>) \<and>
   response (unlike_handler sample_env liked_db (request_of alice post1 [])) =
     Some (200, Likes [\<lparr>like_user = bob\<rparr>]) \<and>
   stored_post (store (unlike_handler sample_env liked_db (request_of alice post1 []))) post1 =
     Some (alice_post\<lparr>likes := [\<lparr>like_user = bob\<rparr>]\<rparr>) \<and>
   stored_post small_db post1 = Some alice_post \<and>
   unlike_handler sample_env small_db (request_of alice post1 []) =
     \<lparr>store = small_db, response = Some (400, Msg ''Post has not yet been liked''),
      console = []\<rparr>"
proof -
  let ?p = "alice_post\<lparr>likes := [\<lparr>like_user = bob\<rparr>, \<lparr>like_user = alice\<rparr>]\<rparr>"
  have c: "cast_oid sample_env (param_post_id (request_of alice post1 [])) = Some post1"
    by (simp add: sample_defs)
  have s: "stored_post liked_db post1 = Some ?p"
    by (simp add: sample_defs)
  have s0: "stored_post small_db post1 = Some alice_post"
    by (simp add: sample_defs)
  have u: "req_user_id (request_of alice post1 []) = alice"
    by (simp add: request_of_def)
  have ne: "alice \<noteq> bob"
    by (simp add: alice_def bob_def)
  have old: "req_user_id (request_of alice post1 []) \<in> like_user ` set (likes ?p)"
    by (simp add: u)
  have new: "req_user_id (request_of alice post1 []) \<notin> like_user ` set (likes alice_post)"
    by (simp add: alice_post_def)
  note T = unlike_removes_entry [OF c s, unfolded Let_def, THEN conjunct2, THEN mp, OF old]
  from T [THEN conjunct1]
  have "response (unlike_handler sample_env liked_db (request_of alice post1 [])) =
      Some (200, Likes [\<lparr>like_user = bob\<rparr>])"
    using ne by (simp add: u)
  moreover from T [THEN conjunct2, THEN conjunct1]
  have "stored_post (store (unlike_handler sample_env liked_db (request_of alice post1 []))) post1 =
      Some (alice_post\<lparr>likes := [\<lparr>like_user = bob\<rparr>]\<rparr>)"
    using ne by (simp add: u)
  moreover note unlike_removes_entry [OF c s0, THEN conjunct1, THEN mp, OF new]
  ultimately show ?thesis
    using c s s0 by blast
qed

section \<open>Requests for a post that is not stored\<close>

text \<open>
  C9. For a like or an unlike request whose post identifier is well-formed and is the
  identifier of no stored post: the body of the handler throws a TypeError when it reads
  the like list of the absent post, the empty \<^verbatim>\<open>catch\<close> block swallows it, and the
  handler ends with no response (neither a 404 nor any other), nothing on the console
  and the store as it was.
\<close>

theorem like_unlike_absent_post_silent:
  assumes "cast_oid e (param_post_id req) = Some k" and "stored_post d k = None"
  shows "like_body e d req = Inl TypeError \<and>
         like_handler e d req = \<lparr>store = d, response = None, console = []\<rparr> \<and>
         unlike_body e d req = Inl TypeError \<and>
         unlike_handler e d req = \<lparr>store = d, response = None, console = []\<rparr>"
  using assms
  by (simp add: like_handler_def like_body_def unlike_handler_def unlike_body_def
      findById_stored catch_nothing_def)

theorem like_unlike_absent_post_silent_witness:
  "cast_oid sample_env (param_post_id (request_of bob no_post [])) = Some no_post \<and>
   stored_post small_db no_post = None \<and>
   like_body sample_env small_db (request_of bob no_post []) = Inl TypeError \<and>
   response (like_handler sample_env small_db (request_of bob no_post [])) = None \<and>
   unlike_body sample_env small_db (request_of bob no_post []) = Inl TypeError \<and>
   response (unlike_handler sample_env small_db (request_of bob no_post [])) = None"
proof -
  have c: "cast_oid sample_env (param_post_id (request_of bob no_post [])) = Some no_post"
    by (simp add: sample_defs)
  have s: "stored_post small_db no_post = None"
    by (simp add: sample_defs)
  from like_unlike_absent_post_silent [OF c s] c s show ?thesis
    by simp
qed

section \<open>Errors at the handler boundary\<close>

text \<open>
  What the \<^verbatim>\<open>catch\<close> blocks make of an error thrown by the body: the handlers that read
  or delete a post log it and answer 404 for an identifier that is none and 500
  otherwise; the handlers that create a post, add a comment or delete one log it and
  answer 500; the like and unlike handlers do neither.
\<close>

lemma caught_404_500:
  "delete_body e d req = Inl err \<Longrightarrow>
     delete_handler e d req =
       \<lparr>store = d,
        response = Some (if err = CastError then (404, Msg ''Invalid post id'')
                         else (500, Text ''Server Error'')),
        console = [LogObject err]\<rparr>"
  "get_body e d req = Inl err \<Longrightarrow>
     get_handler e d req =
       \<lparr>store = d,
        response = Some (if err = CastError then (404, Msg ''Invalid post id'')
                         else (500, Text ''Server Error'')),
        console = [LogObject err]\<rparr>"
  by (simp_all add: delete_handler_def get_handler_def catch_404_500_def)

lemma caught_500:
  "body_text req \<noteq> [] \<Longrightarrow> create_body f d req = Inl err \<Longrightarrow>
     create_handler f d req =
       \<lparr>store = d, response = Some (500, Text ''Server Error''), console = [LogMessage err]\<rparr>"
  "body_text req \<noteq> [] \<Longrightarrow> comment_body e f d req = Inl err \<Longrightarrow>
     comment_handler e f d req =
       \<lparr>store = d, response = Some (500, Text ''Server Error''), console = [LogMessage err]\<rparr>"
  "deleteComment_body e d req = Inl err \<Longrightarrow>
     deleteComment_handler e d req =
       \<lparr>store = d, response = Some (500, Text ''Server Error''), console = [LogMessage err]\<rparr>"
  by (simp_all add: create_handler_def comment_handler_def deleteComment_handler_def
      catch_500_def validate_text_def)

lemma caught_nothing:
  "like_body e d req = Inl err \<Longrightarrow>
     like_handler e d req = \<lparr>store = d, response = None, console = []\<rparr>"
  "unlike_body e d req = Inl err \<Longrightarrow>
     unlike_handler e d req = \<lparr>store = d, response = None, console = []\<rparr>"
  by (simp_all add: like_handler_def unlike_handler_def catch_nothing_def)

text \<open>
  C3. The claim is that every handler logs an error of its body and answers 500, or 404
  for an identifier that is none, the like and unlike handlers among them. A run of the
  code: the like route with the post identifier \<^verbatim>\<open>not-an-id\<close> throws the cast error in its
  body and ends with no response and an empty console; the unlike route with a
  well-formed identifier of no stored post throws a TypeError and ends the same way. The
  route that reads a post answers 404 to the first request and logs the error.
\<close>

theorem like_unlike_swallow_errors:
  "like_body sample_env small_db (request_of bob ''not-an-id'' []) = Inl CastError \<and>
   like_handler sample_env small_db (request_of bob ''not-an-id'' []) =
     \<lparr>store = small_db, response = None, console = []\<rparr> \<and>
   unlike_body sample_env small_db (request_of bob no_post []) = Inl TypeError \<and>
   unlike_handler sample_env small_db (request_of bob no_post []) =
     \<lparr>store = small_db, response = None, console = []\<rparr> \<and>
   get_handler sample_env small_db (request_of bob ''not-an-id'' []) =
     \<lparr>store = small_db, response = Some (404, Msg ''Invalid post id''),
      console = [LogObject CastError]\<rparr>"
proof -
  have bad: "cast_oid sample_env ''not-an-id'' = None"
    by (simp add: sample_env_def hex24_def)
  have ok: "cast_oid sample_env no_post = Some no_post"
    by (simp add: sample_env_def hex24_def no_post_def)
  have absent: "find (\<lambda>p. post_id p = no_post) (posts small_db) = None"
    by (simp add: small_db_def alice_post_def post1_def no_post_def)
  have l: "like_body sample_env small_db (request_of bob ''not-an-id'' []) = Inl CastError"
    by (simp add: like_body_def Post_findById_def request_of_def bad)
  have u: "unlike_body sample_env small_db (request_of bob no_post []) = Inl TypeError"
    by (simp add: unlike_body_def Post_findById_def request_of_def ok absent)
  have g: "get_body sample_env small_db (request_of bob ''not-an-id'' []) = Inl CastError"
    by (simp add: get_body_def Post_findById_def request_of_def bad)
  show ?thesis
    by (simp add: l u g like_handler_def unlike_handler_def get_handler_def
        catch_nothing_def catch_404_500_def)
qed

section \<open>Deleting a post\<close>

lemma delete_by_other:
  assumes "cast_oid e (param_post_id req) = Some k" and "stored_post d k = Some p"
    and "post_user p \<noteq> req_user_id req"
  shows "delete_handler e d req =
     \<lparr>store = d, response = Some (500, Text ''Server Error''), console = [LogObject TypeError]\<rparr>"
  using assms
  by (simp add: delete_handler_def delete_body_def findById_stored status_res_def
      catch_404_500_def)

lemma delete_by_author:
  assumes "cast_oid e (param_post_id req) = Some k" and "stored_post d k = Some p"
    and "post_user p = req_user_id req"
  shows "delete_handler e d req =
     \<lparr>store = Post_remove d p, response = Some (200, Msg ''Post removed''), console = []\<rparr>"
  using assms
  by (simp add: delete_handler_def delete_body_def findById_stored catch_404_500_def sent_def)

text \<open>
  C2. The claim is that deleting a post of another user answers 401 and leaves the post
  stored. A run of the code: Bob asks to delete the post of Alice; the post stays, and
  the response is 500 "Server Error" with a TypeError on the console, since the
  statement that is to answer 401 calls a method the response does not have.
\<close>

theorem delete_by_other_answers_500:
  "stored_post small_db post1 = Some alice_post \<and>
   post_user alice_post = alice \<and>
   req_user_id (request_of bob post1 []) = bob \<and>
   alice \<noteq> bob \<and>
   delete_handler sample_env small_db (request_of bob post1 []) =
     \<lparr>store = small_db, response = Some (500, Text ''Server Error''),
      console = [LogObject TypeError]\<rparr>"
proof -
  have c: "cast_oid sample_env (param_post_id (request_of bob post1 [])) = Some post1"
    by (simp add: sample_defs)
  have s: "stored_post small_db post1 = Some alice_post"
    by (simp add: sample_defs)
  have a: "post_user alice_post = alice"
    by (simp add: alice_post_def)
  have u: "req_user_id (request_of bob post1 []) = bob"
    by (simp add: request_of_def)
  have ne: "alice \<noteq> bob"
    by (simp add: alice_def bob_def)
  have "post_user alice_post \<noteq> req_user_id (request_of bob post1 [])"
    by (simp add: a u ne)
  with c s have "delete_handler sample_env small_db (request_of bob post1 []) =
     \<lparr>store = small_db, response = Some (500, Text ''Server Error''),
      console = [LogObject TypeError]\<rparr>"
    by (rule delete_by_other)
  with s a u ne show ?thesis
    by blast
qed

section \<open>Deleting a comment\<close>

text \<open>
  What the handler removes when the comment is found and is the requester's: the first
  comment of the requester in the list, whatever its identifier.
\<close>

lemma deleteComment_removes_first_of_author:
  assumes "cast_oid e (param_post_id req) = Some k" and "stored_post d k = Some p"
    and "find (\<lambda>c. comment_id c = param_comment_id req) (comments p) = Some c"
    and "comment_user c = req_user_id req"
  shows "deleteComment_handler e d req =
     (let cs = takeWhile (\<lambda>c. comment_user c \<noteq> req_user_id req) (comments p) @
               tl (dropWhile (\<lambda>c. comment_user c \<noteq> req_user_id req) (comments p))
      in \<lparr>store = Post_save d (p\<lparr>comments := cs\<rparr>), response = Some (200, Comments cs),
          console = []\<rparr>)"
proof -
  from assms(3) have "c \<in> set (comments p)"
    by (auto simp: find_Some_iff)
  with assms(4) have "req_user_id req \<in> comment_user ` set (comments p)"
    by force
  from splice1_indexOf_map [OF this] assms show ?thesis
    by (simp add: deleteComment_handler_def deleteComment_body_def findById_stored
        catch_500_def sent_def Let_def)
qed

text \<open>
  C1. The claim is that deleting a comment removes the comment with the given identifier.
  A run of the code: the post has two comments of Bob's, the second at the front; Bob
  asks to delete the first, which is found and is his; the handler removes the second
  one, and the comment list it stores and answers with still has the first.
\<close>

theorem deleteComment_removes_other_comment:
  "stored_post commented_db post1 =
     Some (alice_post\<lparr>comments := [bob_comment2, bob_comment1]\<rparr>) \<and>
   find (\<lambda>c. comment_id c = comment1) [bob_comment2, bob_comment1] = Some bob_comment1 \<and>
   comment_user bob_comment1 = bob \<and>
   deleteComment_handler sample_env commented_db (request_of bob post1 comment1) =
     \<lparr>store = \<lparr>posts = [alice_post\<lparr>comments := [bob_comment1]\<rparr>],
               users = [alice_user, bob_user]\<rparr>,
      response = Some (200, Comments [bob_comment1]), console = []\<rparr>"
proof -
  let ?p = "alice_post\<lparr>comments := [bob_comment2, bob_comment1]\<rparr>"
  let ?req = "request_of bob post1 comment1"
  have c: "cast_oid sample_env (param_post_id ?req) = Some post1"
    by (simp add: sample_defs)
  have s: "stored_post commented_db post1 = Some ?p"
    by (simp add: sample_defs)
  have f: "find (\<lambda>c. comment_id c = param_comment_id ?req) (comments ?p) = Some bob_comment1"
    by (simp add: request_of_def bob_comment1_def bob_comment2_def comment1_def comment2_def)
  have a: "comment_user bob_comment1 = req_user_id ?req"
    by (simp add: request_of_def bob_comment1_def)
  have a2: "comment_user bob_comment2 = req_user_id ?req"
    by (simp add: request_of_def bob_comment2_def)
  have "deleteComment_handler sample_env commented_db ?req =
     \<lparr>store = Post_save commented_db (?p\<lparr>comments := [bob_comment1]\<rparr>),
      response = Some (200, Comments [bob_comment1]), console = []\<rparr>"
    using deleteComment_removes_first_of_author [OF c s f a] by (simp add: a2 Let_def)
  moreover have "Post_save commented_db (?p\<lparr>comments := [bob_comment1]\<rparr>) =
      \<lparr>posts = [alice_post\<lparr>comments := [bob_comment1]\<rparr>], users = [alice_user, bob_user]\<rparr>"
    by (simp add: Post_save_def commented_db_def)
  ultimately show ?thesis
    using s f by (simp add: request_of_def bob_comment1_def)
qed

section \<open>No user twice in a like list\<close>

lemma save_unique:
  "all_likes_unique d \<Longrightarrow> likes_unique p' \<Longrightarrow> all_likes_unique (Post_save d p')"
  by (auto simp: all_likes_unique_def Post_save_def list_all_iff)

lemma insert_unique:
  "all_likes_unique d \<Longrightarrow> likes_unique p' \<Longrightarrow> all_likes_unique (Post_insert d p')"
  by (simp add: all_likes_unique_def Post_insert_def)

lemma remove_unique: "all_likes_unique d \<Longrightarrow> all_likes_unique (Post_remove d p)"
  by (simp add: all_likes_unique_def Post_remove_def list_all_iff)

lemma found_unique:
  "all_likes_unique d \<Longrightarrow> Post_findById e d i = Inr (Some p) \<Longrightarrow> likes_unique p"
  by (auto simp: all_likes_unique_def Post_findById_def list_all_iff find_Some_iff
      split: option.splits)

lemma distinct_splice1:
  assumes "distinct (map f xs)"
  shows "distinct (map f (splice1 xs i))"
proof -
  have "distinct (take n (map f xs) @ drop (Suc n) (map f xs))" for n
    using assms set_take_disj_set_drop_if_distinct [of "map f xs" n "Suc n"]
    by (simp add: distinct_take distinct_drop)
  then show ?thesis
    by (simp add: splice1_def Let_def take_map drop_map)
qed

lemma like_body_unique:
  assumes "all_likes_unique d" and "like_body e d req = Inr (d', r)"
  shows "all_likes_unique d'"
proof (cases "Post_findById e d (param_post_id req)")
  case (Inl err)
  with assms(2) show ?thesis
    by (simp add: like_body_def)
next
  case (Inr found)
  show ?thesis
  proof (cases found)
    case None
    with Inr assms(2) show ?thesis
      by (simp add: like_body_def)
  next
    case (Some p)
    with Inr assms(1) have p: "likes_unique p"
      by (auto dest: found_unique)
    show ?thesis
    proof (cases "filter (\<lambda>l. like_user l = req_user_id req) (likes p) = []")
      case False
      with Inr Some assms show ?thesis
        by (simp add: like_body_def)
    next
      case True
      then have "req_user_id req \<notin> like_user ` set (likes p)"
        by (simp add: filter_user_empty)
      with p have "likes_unique (p\<lparr>likes := \<lparr>like_user = req_user_id req\<rparr> # likes p\<rparr>)"
        by (simp add: likes_unique_def)
      with assms(1) have "all_likes_unique
          (Post_save d (p\<lparr>likes := \<lparr>like_user = req_user_id req\<rparr> # likes p\<rparr>))"
        by (rule save_unique)
      with Inr Some True assms(2) show ?thesis
        by (auto simp: like_body_def unshift_def Let_def)
    qed
  qed
qed

lemma unlike_body_unique:
  assumes "all_likes_unique d" and "unlike_body e d req = Inr (d', r)"
  shows "all_likes_unique d'"
proof (cases "Post_findById e d (param_post_id req)")
  case (Inl err)
  with assms(2) show ?thesis
    by (simp add: unlike_body_def)
next
  case (Inr found)
  show ?thesis
  proof (cases found)
    case None
    with Inr assms(2) show ?thesis
      by (simp add: unlike_body_def)
  next
    case (Some p)
    with Inr assms(1) have "likes_unique p"
      by (auto dest: found_unique)
    then have "likes_unique (p\<lparr>likes := splice1 (likes p) i\<rparr>)" for i
      by (simp add: likes_unique_def distinct_splice1)
    with assms(1) have "all_likes_unique (Post_save d (p\<lparr>likes := splice1 (likes p) i\<rparr>))" for i
      by (rule save_unique)
    with Inr Some assms show ?thesis
      by (auto simp: unlike_body_def Let_def split: if_splits)
  qed
qed

lemma create_body_unique:
  assumes "all_likes_unique d" and "create_body f d req = Inr (d', r)"
  shows "all_likes_unique d'"
  using assms
  by (auto simp: create_body_def Let_def likes_unique_def split: option.splits
      intro!: insert_unique)

lemma get_body_unique:
  assumes "all_likes_unique d" and "get_body e d req = Inr (d', r)"
  shows "all_likes_unique d'"
  using assms by (auto simp: get_body_def split: sum.splits option.splits)

lemma delete_body_unique:
  assumes "all_likes_unique d" and "delete_body e d req = Inr (d', r)"
  shows "all_likes_unique d'"
  using assms
  by (auto simp: delete_body_def status_res_def remove_unique
      split: sum.splits option.splits if_splits)

lemma comment_body_unique:
  assumes "all_likes_unique d" and "comment_body e f d req = Inr (d', r)"
  shows "all_likes_unique d'"
proof -
  have "all_likes_unique (Post_save d (p\<lparr>comments := cs\<rparr>))"
    if "Post_findById e d (param_post_id req) = Inr (Some p)" for p cs
  proof -
    from assms(1) that have "likes_unique p"
      by (rule found_unique)
    then have "likes_unique (p\<lparr>comments := cs\<rparr>)"
      by (simp add: likes_unique_def)
    with assms(1) show ?thesis
      by (rule save_unique)
  qed
  with assms(2) show ?thesis
    by (auto simp: comment_body_def Let_def split: sum.splits option.splits)
qed

lemma deleteComment_body_unique:
  assumes "all_likes_unique d" and "deleteComment_body e d req = Inr (d', r)"
  shows "all_likes_unique d'"
proof -
  have "all_likes_unique (Post_save d (p\<lparr>comments := cs\<rparr>))"
    if "Post_findById e d (param_post_id req) = Inr (Some p)" for p cs
  proof -
    from assms(1) that have "likes_unique p"
      by (rule found_unique)
    then have "likes_unique (p\<lparr>comments := cs\<rparr>)"
      by (simp add: likes_unique_def)
    with assms(1) show ?thesis
      by (rule save_unique)
  qed
  with assms show ?thesis
    by (auto simp: deleteComment_body_def Let_def split: sum.splits option.splits if_splits)
qed

text \<open>The store a handler leaves is the one its body left, or the old one.\<close>

lemma store_catch:
  "store (catch_500 d t) = (case t of Inl err \<Rightarrow> d | Inr (d', r) \<Rightarrow> d')"
  "store (catch_obj_500 d t) = (case t of Inl err \<Rightarrow> d | Inr (d', r) \<Rightarrow> d')"
  "store (catch_404_500 d t) = (case t of Inl err \<Rightarrow> d | Inr (d', r) \<Rightarrow> d')"
  "store (catch_nothing d t) = (case t of Inl err \<Rightarrow> d | Inr (d', r) \<Rightarrow> d')"
  by (simp_all add: catch_500_def catch_obj_500_def catch_404_500_def catch_nothing_def
      sent_def split: sum.splits prod.splits)

lemma register_posts: "posts (store (register_handler e f d req)) = posts d"
  by (simp add: register_handler_def register_body_def sent_def User_insert_def Let_def
      split: option.splits)

lemma serve_unique:
  assumes "all_likes_unique d"
  shows "all_likes_unique (store (serve e f d c))"
proof (cases c)
  case (Register r)
  with assms register_posts [of e f d r] show ?thesis
    by (simp add: all_likes_unique_def)
next
  case (CreatePost r)
  with assms create_body_unique [OF assms, of f r] show ?thesis
    by (auto simp: create_handler_def store_catch sent_def Let_def split: sum.splits)
next
  case ListPosts
  with assms show ?thesis
    by (simp add: list_handler_def store_catch)
next
  case (GetPost r)
  with assms get_body_unique [OF assms, of e r] show ?thesis
    by (auto simp: get_handler_def store_catch split: sum.splits)
next
  case (DeletePost r)
  with assms delete_body_unique [OF assms, of e r] show ?thesis
    by (auto simp: delete_handler_def store_catch split: sum.splits)
next
  case (LikePost r)
  with assms like_body_unique [OF assms, of e r] show ?thesis
    by (auto simp: like_handler_def store_catch split: sum.splits)
next
  case (UnlikePost r)
  with assms unlike_body_unique [OF assms, of e r] show ?thesis
    by (auto simp: unlike_handler_def store_catch split: sum.splits)
next
  case (AddComment r)
  with assms comment_body_unique [OF assms, of e f r] show ?thesis
    by (auto simp: comment_handler_def store_catch sent_def Let_def split: sum.splits)
next
  case (DeleteComment r)
  with assms deleteComment_body_unique [OF assms, of e r] show ?thesis
    by (auto simp: deleteComment_handler_def store_catch split: sum.splits)
qed

lemma reachable_unique: "reachable e d \<Longrightarrow> all_likes_unique d"
proof (induction rule: reachable.induct)
  case start
  show ?case
    by (simp add: all_likes_unique_def init_db_def)
next
  case (step d f c)
  then show ?case
    by (simp add: serve_unique)
qed

text \<open>
  C7. Every request of the server, to any of its routes, takes a store in which no like
  list has a user twice to such a store; and in every store the server can reach from
  the empty one, no post has a user twice in its like list. (Requests are served one
  after the other.)
\<close>

theorem likes_stay_unique:
  "(all_likes_unique d \<longrightarrow> all_likes_unique (store (serve e f d c))) \<and>
   (reachable e d \<longrightarrow> (\<forall>p \<in> set (posts d). distinct (map like_user (likes p))))"
proof (intro conjI impI)
  assume "all_likes_unique d"
  then show "all_likes_unique (store (serve e f d c))"
    by (rule serve_unique)
next
  assume "reachable e d"
  then have "all_likes_unique d"
    by (rule reachable_unique)
  then show "\<forall>p \<in> set (posts d). distinct (map like_user (likes p))"
    by (simp add: all_likes_unique_def likes_unique_def list_all_iff)
qed

subsection \<open>The concrete run, evaluated\<close>

lemma registered_db_eq: "registered_db = \<lparr>posts = [], users = [alice_user]\<rparr>"
  by (simp add: registered_db_def register_handler_def register_body_def
      validate_registration_def User_findOne_email_def User_insert_def sent_def
      alice_registration_def user_fresh_def init_db_def sample_env_def alice_user_def Let_def)

lemma posted_db_eq: "posted_db = \<lparr>posts = [alice_post], users = [alice_user]\<rparr>"
  by (simp add: posted_db_def registered_db_eq create_handler_def create_body_def
      validate_text_def User_findById_select_def select_minus_password_def Post_insert_def
      catch_500_def sent_def hi_request_def post_fresh_def alice_user_def alice_post_def
      Let_def)

lemma self_liked_db_eq:
  "self_liked_db =
     \<lparr>posts = [alice_post\<lparr>likes := [\<lparr>like_user = alice\<rparr>]\<rparr>], users = [alice_user]\<rparr>"
proof -
  have c: "cast_oid sample_env (param_post_id (request_of alice post1 [])) = Some post1"
    by (simp add: sample_defs)
  have s: "stored_post \<lparr>posts = [alice_post], users = [alice_user]\<rparr> post1 = Some alice_post"
    by (simp add: stored_post_def alice_post_def)
  have n: "req_user_id (request_of alice post1 []) \<notin> like_user ` set (likes alice_post)"
    by (simp add: alice_post_def)
  show ?thesis
    unfolding self_liked_db_def posted_db_eq serve.simps like_new [OF c s n]
    by (simp add: Post_save_def request_of_def alice_post_def)
qed

lemma reachable_self_liked_db: "reachable sample_env self_liked_db"
  unfolding self_liked_db_def posted_db_def registered_db_def
  by (intro reachable.step reachable.start)

text \<open>The invariant on the store of the concrete run, and after one more like.\<close>

theorem likes_stay_unique_witness:
  "reachable sample_env self_liked_db \<and>
   posts self_liked_db = [alice_post\<lparr>likes := [\<lparr>like_user = alice\<rparr>]\<rparr>] \<and>
   distinct (map like_user (likes (alice_post\<lparr>likes := [\<lparr>like_user = alice\<rparr>]\<rparr>))) \<and>
   all_likes_unique self_liked_db \<and>
   all_likes_unique
     (store (serve sample_env post_fresh self_liked_db (LikePost (request_of alice post1 []))))"
proof -
  note r = reachable_self_liked_db
  have p: "posts self_liked_db = [alice_post\<lparr>likes := [\<lparr>like_user = alice\<rparr>]\<rparr>]"
    by (simp add: self_liked_db_eq)
  from likes_stay_unique [of self_liked_db sample_env, THEN conjunct2, THEN mp, OF r]
  have all: "\<forall>q \<in> set (posts self_liked_db). distinct (map like_user (likes q))" .
  then have d: "distinct (map like_user (likes (alice_post\<lparr>likes := [\<lparr>like_user = alice\<rparr>]\<rparr>)))"
    unfolding p by simp
  from all have u: "all_likes_unique self_liked_db"
    by (simp add: all_likes_unique_def likes_unique_def list_all_iff)
  from likes_stay_unique [of self_liked_db sample_env post_fresh
      "LikePost (request_of alice post1 [])", THEN conjunct1, THEN mp, OF u]
  have "all_likes_unique
     (store (serve sample_env post_fresh self_liked_db (LikePost (request_of alice post1 []))))" .
  with r p d u show ?thesis
    by blast
qed

section \<open>Registration\<close>

lemma findOne_email_iff:
  "(User_findOne_email d m = None) = (m \<notin> user_email ` set (users d))"
  by (auto simp: User_findOne_email_def find_None_iff)

lemma register_invalid:
  "validate_registration e req \<noteq> [] \<Longrightarrow>
   register_handler e f d req =
     \<lparr>store = d, response = Some (400, Errors (validate_registration e req)), console = []\<rparr>"
  by (simp add: register_handler_def sent_def Let_def)

lemma register_duplicate:
  assumes "validate_registration e req = []" and "body_email req \<in> user_email ` set (users d)"
  shows "register_handler e f d req =
     \<lparr>store = d, response = Some (400, Errors [''User already exists'']), console = []\<rparr>"
proof -
  from assms(2) obtain u where "User_findOne_email d (body_email req) = Some u"
    using findOne_email_iff [of d "body_email req"] by auto
  with assms(1) show ?thesis
    by (simp add: register_handler_def register_body_def sent_def)
qed

lemma register_new:
  assumes "validate_registration e req = []" and "body_email req \<notin> user_email ` set (users d)"
  shows "register_handler e f d req =
     \<lparr>store = User_insert d
        \<lparr>user_id = fresh_id f, user_name = body_name req, user_email = body_email req,
         user_password = bcrypt_hash e (body_password req) (fresh_salt f),
         user_avatar = gravatar_url e (body_email req)\<rparr>,
      response = map_option (\<lambda>t. (200, Token t)) (jwt_sign e (fresh_id f)),
      console = []\<rparr>"
proof -
  from assms(2) have "User_findOne_email d (body_email req) = None"
    by (simp add: findOne_email_iff)
  with assms(1) show ?thesis
    by (simp add: register_handler_def register_body_def sent_def Let_def split: option.splits)
qed

text \<open>
  C6. When the email of a registration is the email of a stored user, the handler
  creates no user; when the request passes the validation, it answers 400 "User already
  exists". Hence, when two valid registrations with the same email follow each other
  from a store without that email, the store has exactly one user with the email after
  the first, and the second answers 400 and leaves the store as it is.
\<close>

theorem register_same_email_once:
  "(body_email req \<in> user_email ` set (users d) \<longrightarrow>
      store (register_handler e f d req) = d) \<and>
   (validate_registration e req = [] \<and> body_email req \<in> user_email ` set (users d) \<longrightarrow>
      register_handler e f d req =
        \<lparr>store = d, response = Some (400, Errors [''User already exists'']), console = []\<rparr>) \<and>
   (validate_registration e req = [] \<and> validate_registration e req' = [] \<and>
    body_email req' = body_email req \<and> body_email req \<notin> user_email ` set (users d) \<longrightarrow>
      (let d1 = store (register_handler e f d req)
       in length (filter (\<lambda>u. user_email u = body_email req) (users d1)) = 1 \<and>
          length (users d1) = Suc (length (users d)) \<and>
          register_handler e f' d1 req' =
            \<lparr>store = d1, response = Some (400, Errors [''User already exists'']),
             console = []\<rparr>))"
proof (intro conjI impI)
  assume dup: "body_email req \<in> user_email ` set (users d)"
  show "store (register_handler e f d req) = d"
  proof (cases "validate_registration e req = []")
    case True
    from register_duplicate [OF True dup] show ?thesis by simp
  next
    case False
    from register_invalid [OF False] show ?thesis by simp
  qed
next
  assume "validate_registration e req = [] \<and> body_email req \<in> user_email ` set (users d)"
  then show "register_handler e f d req =
      \<lparr>store = d, response = Some (400, Errors [''User already exists'']), console = []\<rparr>"
    by (simp add: register_duplicate)
next
  assume a: "validate_registration e req = [] \<and> validate_registration e req' = [] \<and>
    body_email req' = body_email req \<and> body_email req \<notin> user_email ` set (users d)"
  define d1 where "d1 = store (register_handler e f d req)"
  from a have none: "filter (\<lambda>u. user_email u = body_email req) (users d) = []"
    by (force simp: filter_empty_conv)
  from a have "users d1 = users d @
      [\<lparr>user_id = fresh_id f, user_name = body_name req, user_email = body_email req,
        user_password = bcrypt_hash e (body_password req) (fresh_salt f),
        user_avatar = gravatar_url e (body_email req)\<rparr>]"
    by (simp add: d1_def register_new User_insert_def)
  then have one: "length (filter (\<lambda>u. user_email u = body_email req) (users d1)) = 1"
    and more: "length (users d1) = Suc (length (users d))"
    and "body_email req' \<in> user_email ` set (users d1)"
    using a none by simp_all
  with a have "register_handler e f' d1 req' =
      \<lparr>store = d1, response = Some (400, Errors [''User already exists'']), console = []\<rparr>"
    by (simp add: register_duplicate)
  with one more
  show "let d1 = store (register_handler e f d req)
        in length (filter (\<lambda>u. user_email u = body_email req) (users d1)) = 1 \<and>
           length (users d1) = Suc (length (users d)) \<and>
           register_handler e f' d1 req' =
             \<lparr>store = d1, response = Some (400, Errors [''User already exists'']),
              console = []\<rparr>"
    unfolding Let_def d1_def [symmetric] by simp
qed

theorem register_same_email_once_witness:
  "validate_registration sample_env alice_registration = [] \<and>
   validate_registration sample_env (alice_registration\<lparr>body_password := ''another1''\<rparr>) = [] \<and>
   body_email alice_registration \<notin> user_email ` set (users init_db) \<and>
   users registered_db = [alice_user] \<and>
   length (filter (\<lambda>u. user_email u = ''a@x.com'') (users registered_db)) = 1 \<and>
   register_handler sample_env post_fresh registered_db
       (alice_registration\<lparr>body_password := ''another1''\<rparr>) =
     \<lparr>store = registered_db, response = Some (400, Errors [''User already exists'']),
      console = []\<rparr> \<and>
   store (register_handler sample_env post_fresh registered_db alice_registration) =
     registered_db"
proof -
  let ?again = "alice_registration\<lparr>body_password := ''another1''\<rparr>"
  have v: "validate_registration sample_env alice_registration = []"
    by (simp add: validate_registration_def alice_registration_def sample_env_def)
  have v': "validate_registration sample_env ?again = []"
    by (simp add: validate_registration_def alice_registration_def sample_env_def)
  have m: "body_email ?again = body_email alice_registration"
    by simp
  have n: "body_email alice_registration \<notin> user_email ` set (users init_db)"
    by (simp add: init_db_def)
  have r: "store (register_handler sample_env user_fresh init_db alice_registration) =
      registered_db"
    by (simp add: registered_db_def)
  have e: "body_email alice_registration = ''a@x.com''"
    by (simp add: alice_registration_def)
  note T = register_same_email_once [of alice_registration init_db sample_env user_fresh
      ?again post_fresh, unfolded Let_def r e]
  from T [THEN conjunct2, THEN conjunct2] v v' n e
  have two: "length (filter (\<lambda>u. user_email u = ''a@x.com'') (users registered_db)) = 1 \<and>
      length (users registered_db) = Suc (length (users init_db)) \<and>
      register_handler sample_env post_fresh registered_db ?again =
        \<lparr>store = registered_db, response = Some (400, Errors [''User already exists'']),
         console = []\<rparr>"
    by simp
  have u: "users registered_db = [alice_user]"
    by (simp add: registered_db_eq)
  then have "body_email alice_registration \<in> user_email ` set (users registered_db)"
    by (simp add: alice_registration_def alice_user_def)
  with register_same_email_once [of alice_registration registered_db sample_env post_fresh,
      THEN conjunct1]
  have "store (register_handler sample_env post_fresh registered_db alice_registration) =
      registered_db"
    by (simp add: e)
  with v v' n u two show ?thesis
    by blast
qed

text \<open>
  C10. A registration whose password has fewer than 6 characters, whose name is empty or
  whose email is no email is answered 400 with the list of the failed checks, which is
  not empty; the store is not read (the answer is the same on every store) and is left as
  it is, so no user is created.
\<close>

theorem register_rejects_invalid:
  assumes "length (body_password req) < 6 \<or> body_name req = [] \<or> \<not> isEmail e (body_email req)"
  shows "validate_registration e req \<noteq> [] \<and>
         register_handler e f d req =
           \<lparr>store = d, response = Some (400, Errors (validate_registration e req)),
            console = []\<rparr> \<and>
         response (register_handler e f d' req) = response (register_handler e f d req)"
proof -
  from assms have bad: "validate_registration e req \<noteq> []"
    by (auto simp: validate_registration_def)
  then show ?thesis
    by (simp add: register_invalid)
qed

theorem register_rejects_invalid_witness:
  "length (body_password (alice_registration\<lparr>body_password := ''12345''\<rparr>)) < 6 \<and>
   register_handler sample_env user_fresh init_db
       (alice_registration\<lparr>body_password := ''12345''\<rparr>) =
     \<lparr>store = init_db,
      response = Some (400, Errors [''Please enter a password with 6 or more characters'']),
      console = []\<rparr> \<and>
   response (register_handler sample_env user_fresh registered_db
       (alice_registration\<lparr>body_password := ''12345''\<rparr>)) =
     Some (400, Errors [''Please enter a password with 6 or more characters''])"
proof -
  let ?short = "alice_registration\<lparr>body_password := ''12345''\<rparr>"
  have s: "length (body_password ?short) < 6"
    by simp
  then have h: "length (body_password ?short) < 6 \<or> body_name ?short = [] \<or>
      \<not> isEmail sample_env (body_email ?short)"
    by (rule disjI1)
  have v: "validate_registration sample_env ?short =
      [''Please enter a password with 6 or more characters'']"
    by (simp add: validate_registration_def alice_registration_def sample_env_def)
  from register_rejects_invalid [OF h, of user_fresh init_db registered_db] s show ?thesis
    by (simp add: v)
qed

section \<open>Stored passwords and the responses\<close>

text \<open>
  A handler that is run on a store with every password overwritten does what it does
  on the store itself: the handlers of the posts routes commute with the overwriting.
\<close>

lemma scrub_simps:
  "posts (scrub d) = posts d"
  "Post_findById e (scrub d) i = Post_findById e d i"
  "Post_save (scrub d) p = scrub (Post_save d p)"
  "Post_insert (scrub d) p = scrub (Post_insert d p)"
  "Post_remove (scrub d) p = scrub (Post_remove d p)"
  "Post_find_sorted (scrub d) = Post_find_sorted d"
  by (simp_all add: scrub_def Post_findById_def Post_save_def Post_insert_def Post_remove_def
      Post_find_sorted_def split: option.splits)

lemma find_scrubbed:
  "find (\<lambda>u. P (user_id u) (user_email u)) (map (\<lambda>u. u\<lparr>user_password := []\<rparr>) us) =
   map_option (\<lambda>u. u\<lparr>user_password := []\<rparr>) (find (\<lambda>u. P (user_id u) (user_email u)) us)"
  by (induction us) auto

lemma select_scrubbed:
  "select_minus_password (u\<lparr>user_password := x\<rparr>) = select_minus_password u"
  by (simp add: select_minus_password_def)

lemma scrub_users:
  "User_findById_select (scrub d) i = User_findById_select d i"
  "User_findOne_email (scrub d) m =
     map_option (\<lambda>u. u\<lparr>user_password := []\<rparr>) (User_findOne_email d m)"
proof -
  have "find (\<lambda>u. user_id u = i) (users (scrub d)) =
      map_option (\<lambda>u. u\<lparr>user_password := []\<rparr>) (find (\<lambda>u. user_id u = i) (users d))"
    using find_scrubbed [of "\<lambda>k m. k = i" "users d"] by (simp add: scrub_def)
  then show "User_findById_select (scrub d) i = User_findById_select d i"
    by (cases "find (\<lambda>u. user_id u = i) (users d)")
      (simp_all add: User_findById_select_def select_scrubbed)
  show "User_findOne_email (scrub d) m =
      map_option (\<lambda>u. u\<lparr>user_password := []\<rparr>) (User_findOne_email d m)"
    using find_scrubbed [of "\<lambda>k n. n = m" "users d"]
    by (simp add: User_findOne_email_def scrub_def)
qed

lemma scrub_bodies:
  "like_body e (scrub d) req = map_sum id (map_prod scrub id) (like_body e d req)"
  "unlike_body e (scrub d) req = map_sum id (map_prod scrub id) (unlike_body e d req)"
  "create_body f (scrub d) req = map_sum id (map_prod scrub id) (create_body f d req)"
  "get_body e (scrub d) req = map_sum id (map_prod scrub id) (get_body e d req)"
  "delete_body e (scrub d) req = map_sum id (map_prod scrub id) (delete_body e d req)"
  "comment_body e f (scrub d) req = map_sum id (map_prod scrub id) (comment_body e f d req)"
  "deleteComment_body e (scrub d) req =
     map_sum id (map_prod scrub id) (deleteComment_body e d req)"
  by (simp_all add: like_body_def unlike_body_def create_body_def get_body_def delete_body_def
      comment_body_def deleteComment_body_def status_res_def scrub_simps scrub_users Let_def
      split: sum.splits option.splits)

lemma scrub_catch:
  "catch_500 (scrub d) (map_sum id (map_prod scrub id) t) =
     (catch_500 d t)\<lparr>store := scrub (store (catch_500 d t))\<rparr>"
  "catch_obj_500 (scrub d) (map_sum id (map_prod scrub id) t) =
     (catch_obj_500 d t)\<lparr>store := scrub (store (catch_obj_500 d t))\<rparr>"
  "catch_404_500 (scrub d) (map_sum id (map_prod scrub id) t) =
     (catch_404_500 d t)\<lparr>store := scrub (store (catch_404_500 d t))\<rparr>"
  "catch_nothing (scrub d) (map_sum id (map_prod scrub id) t) =
     (catch_nothing d t)\<lparr>store := scrub (store (catch_nothing d t))\<rparr>"
  by (simp_all add: catch_500_def catch_obj_500_def catch_404_500_def catch_nothing_def
      sent_def split: sum.splits prod.splits)

lemma scrub_posts_handlers:
  "like_handler e (scrub d) req =
     (like_handler e d req)\<lparr>store := scrub (store (like_handler e d req))\<rparr>"
  "unlike_handler e (scrub d) req =
     (unlike_handler e d req)\<lparr>store := scrub (store (unlike_handler e d req))\<rparr>"
  "get_handler e (scrub d) req =
     (get_handler e d req)\<lparr>store := scrub (store (get_handler e d req))\<rparr>"
  "delete_handler e (scrub d) req =
     (delete_handler e d req)\<lparr>store := scrub (store (delete_handler e d req))\<rparr>"
  "deleteComment_handler e (scrub d) req =
     (deleteComment_handler e d req)\<lparr>store := scrub (store (deleteComment_handler e d req))\<rparr>"
  by (simp_all only: like_handler_def unlike_handler_def get_handler_def delete_handler_def
      deleteComment_handler_def scrub_bodies scrub_catch)

lemma scrub_validated_handlers:
  "create_handler f (scrub d) req =
     (create_handler f d req)\<lparr>store := scrub (store (create_handler f d req))\<rparr>"
  "comment_handler e f (scrub d) req =
     (comment_handler e f d req)\<lparr>store := scrub (store (comment_handler e f d req))\<rparr>"
  "list_handler (scrub d) =
     (list_handler d)\<lparr>store := scrub (store (list_handler d))\<rparr>"
  by (simp_all add: create_handler_def comment_handler_def list_handler_def scrub_bodies
      scrub_catch scrub_simps sent_def Let_def catch_obj_500_def)

lemma scrub_register:
  "response (register_handler e f (scrub d) req) = response (register_handler e f d req)"
  "console (register_handler e f (scrub d) req) = console (register_handler e f d req)"
  "posts (store (register_handler e f (scrub d) req)) =
     posts (store (register_handler e f d req))"
  by (simp_all add: register_handler_def register_body_def scrub_users scrub_simps sent_def
      User_insert_def Let_def split: option.splits)

lemma scrub_serve:
  "response (serve e f (scrub d) c) = response (serve e f d c)"
  "posts (store (serve e f (scrub d) c)) = posts (store (serve e f d c))"
  by (cases c; simp add: scrub_register scrub_posts_handlers scrub_validated_handlers
      scrub_simps)+

lemma register_any_password:
  assumes "6 \<le> length pw" and "6 \<le> length pw'"
  shows "response (register_handler e f d (req\<lparr>body_password := pw\<rparr>)) =
         response (register_handler e f d (req\<lparr>body_password := pw'\<rparr>))"
  using assms
  by (simp add: register_handler_def register_body_def validate_registration_def sent_def
      Let_def split: option.splits)

text \<open>
  C8. A registration that succeeds stores, as the password of the new user, what the
  hash function gives for the plaintext and the salt drawn for this registration, and
  answers with the token signed for the new identifier. No response depends on a
  stored password: every request, to any route, gets the same response, and leaves the
  same posts, when every stored password is overwritten before; and two registrations
  that differ in the password only, both passwords of 6 characters at least, get the
  same response. (That the hash cannot be inverted and that the salt is random are
  properties of the library, which is a parameter here.)
\<close>

theorem password_hashed_never_sent:
  "(validate_registration e req = [] \<and> body_email req \<notin> user_email ` set (users d) \<longrightarrow>
      users (store (register_handler e f d req)) =
        users d @
        [\<lparr>user_id = fresh_id f, user_name = body_name req, user_email = body_email req,
          user_password = bcrypt_hash e (body_password req) (fresh_salt f),
          user_avatar = gravatar_url e (body_email req)\<rparr>] \<and>
      response (register_handler e f d req) =
        map_option (\<lambda>t. (200, Token t)) (jwt_sign e (fresh_id f))) \<and>
   response (serve e f (scrub d) c) = response (serve e f d c) \<and>
   posts (store (serve e f (scrub d) c)) = posts (store (serve e f d c)) \<and>
   (6 \<le> length pw \<and> 6 \<le> length pw' \<longrightarrow>
      response (register_handler e f d (req\<lparr>body_password := pw\<rparr>)) =
      response (register_handler e f d (req\<lparr>body_password := pw'\<rparr>)))"
proof (intro conjI impI)
  assume a: "validate_registration e req = [] \<and> body_email req \<notin> user_email ` set (users d)"
  then have run: "register_handler e f d req =
     \<lparr>store = User_insert d
        \<lparr>user_id = fresh_id f, user_name = body_name req, user_email = body_email req,
         user_password = bcrypt_hash e (body_password req) (fresh_salt f),
         user_avatar = gravatar_url e (body_email req)\<rparr>,
      response = map_option (\<lambda>t. (200, Token t)) (jwt_sign e (fresh_id f)),
      console = []\<rparr>"
    by (simp add: register_new)
  show "users (store (register_handler e f d req)) =
      users d @
      [\<lparr>user_id = fresh_id f, user_name = body_name req, user_email = body_email req,
        user_password = bcrypt_hash e (body_password req) (fresh_salt f),
        user_avatar = gravatar_url e (body_email req)\<rparr>]"
    by (simp add: run User_insert_def)
  show "response (register_handler e f d req) =
      map_option (\<lambda>t. (200, Token t)) (jwt_sign e (fresh_id f))"
    by (simp add: run)
next
  show "response (serve e f (scrub d) c) = response (serve e f d c)"
    by (rule scrub_serve)
next
  show "posts (store (serve e f (scrub d) c)) = posts (store (serve e f d c))"
    by (rule scrub_serve)
next
  assume "6 \<le> length pw \<and> 6 \<le> length pw'"
  then show "response (register_handler e f d (req\<lparr>body_password := pw\<rparr>)) =
      response (register_handler e f d (req\<lparr>body_password := pw'\<rparr>))"
    by (simp add: register_any_password)
qed

theorem password_hashed_never_sent_witness:
  "validate_registration sample_env alice_registration = [] \<and>
   body_email alice_registration \<notin> user_email ` set (users init_db) \<and>
   users (store (register_handler sample_env user_fresh init_db alice_registration)) =
     [\<lparr>user_id = alice, user_name = ''A'', user_email = ''a@x.com'',
       user_password = ''salt11terces'',
       user_avatar = ''//www.gravatar.com/avatar/a@x.com''\<rparr>] \<and>
   response (register_handler sample_env user_fresh init_db alice_registration) =
     Some (200, Token (''jwt.'' @ alice)) \<and>
   users (scrub posted_db) \<noteq> users posted_db \<and>
   response (serve sample_env post_fresh (scrub posted_db) (GetPost (request_of bob post1 []))) =
     Some (200, PostBody alice_post) \<and>
   response (register_handler sample_env user_fresh init_db
       (alice_registration\<lparr>body_password := ''another1''\<rparr>)) =
     Some (200, Token (''jwt.'' @ alice))"
proof -
  let ?get = "GetPost (request_of bob post1 [])"
  have v: "validate_registration sample_env alice_registration = []"
    by (simp add: validate_registration_def alice_registration_def sample_env_def)
  have n: "body_email alice_registration \<notin> user_email ` set (users init_db)"
    by (simp add: init_db_def)
  note T = password_hashed_never_sent [of sample_env alice_registration init_db user_fresh
      ?get "''secret1''" "''another1''"]
  from T [THEN conjunct1] v n
  have u: "users (store (register_handler sample_env user_fresh init_db alice_registration)) =
     [\<lparr>user_id = alice, user_name = ''A'', user_email = ''a@x.com'',
       user_password = ''salt11terces'',
       user_avatar = ''//www.gravatar.com/avatar/a@x.com''\<rparr>]"
    and r: "response (register_handler sample_env user_fresh init_db alice_registration) =
     Some (200, Token (''jwt.'' @ alice))"
    by (simp_all add: init_db_def alice_registration_def user_fresh_def sample_env_def)
  have same: "alice_registration\<lparr>body_password := ''secret1''\<rparr> = alice_registration"
    by (simp add: alice_registration_def)
  from T [THEN conjunct2, THEN conjunct2, THEN conjunct2] r
  have r': "response (register_handler sample_env user_fresh init_db
       (alice_registration\<lparr>body_password := ''another1''\<rparr>)) =
     Some (200, Token (''jwt.'' @ alice))"
    by (simp add: same)
  have c: "users (scrub posted_db) \<noteq> users posted_db"
    by (simp add: posted_db_eq scrub_def alice_user_def)
  have "response (serve sample_env post_fresh posted_db ?get) = Some (200, PostBody alice_post)"
    by (simp add: posted_db_eq get_handler_def get_body_def Post_findById_def catch_404_500_def
        sent_def sample_defs)
  with password_hashed_never_sent [of sample_env alice_registration posted_db post_fresh ?get,
      THEN conjunct2, THEN conjunct1]
  have g: "response (serve sample_env post_fresh (scrub posted_db) ?get) =
      Some (200, PostBody alice_post)"
    by simp
  from v n u r c g r' show ?thesis
    by blast
qed

end
